theory Spec2Isabelle
  imports Main
begin

section \<open>Python values, strings and exceptions\<close>

text \<open>
  A Python \<open>str\<close> is modelled as a \<open>string\<close>: one \<open>char\<close> per code point, for the
  code points below 256. The two string methods the program calls, \<open>str.strip()\<close> and
  \<open>str.lower()\<close>, are written out for that range as CPython defines them.
\<close>

definition isspace :: "char \<Rightarrow> bool" where
  \<comment> \<open>the characters \<open>str.strip()\<close> removes: TAB..CR, FS..US, space, NEL, NBSP\<close>
  "isspace c =
     (let n = (of_char c :: nat)
      in (9 \<le> n \<and> n \<le> 13) \<or> (28 \<le> n \<and> n \<le> 32) \<or> n = 133 \<or> n = 160)"

definition strip :: "string \<Rightarrow> string" where
  "strip s = rev (dropWhile isspace (rev (dropWhile isspace s)))"

definition lower_char :: "char \<Rightarrow> char" where
  \<comment> \<open>A..Z and the capital letters of U+00C0..U+00DE (U+00D7 is the multiplication sign)\<close>
  "lower_char c =
     (let n = (of_char c :: nat)
      in if (65 \<le> n \<and> n \<le> 90) \<or> (192 \<le> n \<and> n \<le> 222 \<and> n \<noteq> 215)
         then char_of (n + 32) else c)"

definition lower :: "string \<Rightarrow> string" where
  "lower s = map lower_char s"

text \<open>
  The values that cross the program's interfaces are JSON-like: the argument of
  \<open>validate_youtube_url\<close> is tested with \<open>isinstance(url, str)\<close>, and the metadata the
  extraction library returns is a loosely typed dictionary.
\<close>

datatype pyval =
    PNone
  | PBool bool
  | PInt int
  | PStr string
  | PList "pyval list"
  | PDict "(string \<times> pyval) list"

text \<open>
  An exception is its class and the text \<open>str(e)\<close> gives. The text of an exception the
  program or the library raises is a string; the text of an exception the interpreter
  raises for an ill-typed operation is kept abstract, one constructor per operation.
\<close>

datatype exn_class =
    ValueError | RuntimeError | TypeError | IndexError | KeyError | AttributeError
  | LibraryError string

datatype message =
    Text string
  | NotAContainer
  | BadIndexType
  | NotSubscriptable
  | IndexOutOfRange
  | NoAttributeGet

datatype exn = Exn exn_class message

fun str_of_exn :: "exn \<Rightarrow> message" where
  "str_of_exn (Exn c m) = m"

section \<open>Regular expression search\<close>

text \<open>
  \<open>re.search(p, s)\<close> tries the pattern at every start position of \<open>s\<close>, left to right
  (the end of the string included), and returns the first match. A pattern is given as
  the function that matches it at the start of a string and returns its group.
\<close>

fun re_search :: "(string \<Rightarrow> 'a option) \<Rightarrow> string \<Rightarrow> 'a option" where
  "re_search p [] = p []"
| "re_search p (c # cs) = (case p (c # cs) of Some g \<Rightarrow> Some g | None \<Rightarrow> re_search p cs)"

fun literal :: "string \<Rightarrow> string \<Rightarrow> string option" where
  \<comment> \<open>a literal at the start of the string; returns what follows it\<close>
  "literal [] s = Some s"
| "literal (a # as) [] = None"
| "literal (a # as) (c # cs) = (if a = c then literal as cs else None)"

fun contains :: "string \<Rightarrow> string \<Rightarrow> bool" where
  \<comment> \<open>\<open>sub in s\<close> on two strings\<close>
  "contains sub [] = (sub = [])"
| "contains sub (c # cs) =
     (case literal sub (c # cs) of Some rest \<Rightarrow> True | None \<Rightarrow> contains sub cs)"

definition idchar :: "char \<Rightarrow> bool" where
  \<comment> \<open>the class \<open>[A-Za-z0-9_-]\<close>\<close>
  "idchar c =
     (let n = (of_char c :: nat)
      in (65 \<le> n \<and> n \<le> 90) \<or> (97 \<le> n \<and> n \<le> 122) \<or> (48 \<le> n \<and> n \<le> 57)
         \<or> n = 95 \<or> n = 45)"

definition host_re :: "string \<Rightarrow> unit option" where
  \<comment> \<open>\<open>(youtube\.com|youtu\.be)\<close>\<close>
  "host_re s =
     (case literal ''youtube.com'' s of
        Some rest \<Rightarrow> Some ()
      | None \<Rightarrow> (case literal ''youtu.be'' s of Some rest \<Rightarrow> Some () | None \<Rightarrow> None))"

definition id11_re :: "string \<Rightarrow> string \<Rightarrow> string option" where
  \<comment> \<open>\<open>(?:lit)([A-Za-z0-9_-]{11})\<close>; the result is group 1\<close>
  "id11_re lit s =
     (case literal lit s of
        None \<Rightarrow> None
      | Some rest \<Rightarrow>
          (let g = take 11 rest
           in if length g = 11 \<and> list_all idchar g then Some g else None))"

definition idplus_re :: "string \<Rightarrow> string \<Rightarrow> string option" where
  \<comment> \<open>\<open>(?:lit)([A-Za-z0-9_-]+)\<close>; the repetition is greedy; the result is group 1\<close>
  "idplus_re lit s =
     (case literal lit s of
        None \<Rightarrow> None
      | Some rest \<Rightarrow>
          (let g = takeWhile idchar rest
           in if g \<noteq> [] then Some g else None))"

section \<open>URL validation\<close>

datatype url_type = Video | Playlist

record validated =
  url_type :: url_type
  url_id :: string
  clean_url :: string

definition video_patterns :: "string list" where
  "video_patterns = [''youtube.com/watch?v='', ''youtu.be/'', ''youtube.com/shorts/'']"

definition playlist_pattern :: string where
  "playlist_pattern = ''youtube.com/playlist?list=''"

fun first_video_match :: "string list \<Rightarrow> string \<Rightarrow> string option" where
  \<comment> \<open>the loop over \<open>video_patterns\<close>: the first pattern that matches decides\<close>
  "first_video_match [] u = None"
| "first_video_match (p # ps) u =
     (case re_search (id11_re p) u of
        Some video_id \<Rightarrow> Some video_id
      | None \<Rightarrow> first_video_match ps u)"

definition validate_youtube_url :: "pyval \<Rightarrow> exn + validated" where
  "validate_youtube_url url =
     (case url of
        PStr s \<Rightarrow>
          (if strip s = [] then Inl (Exn ValueError (Text ''URL must be a non-empty string''))
           else
             (let u = strip s in
              if re_search host_re u = None
              then Inl (Exn ValueError (Text ''Not a valid YouTube URL''))
              else
                (case first_video_match video_patterns u of
                   Some video_id \<Rightarrow>
                     Inr \<lparr>url_type = Video, url_id = video_id,
                          clean_url = ''https://www.youtube.com/watch?v='' @ video_id\<rparr>
                 | None \<Rightarrow>
                     (case re_search (idplus_re playlist_pattern) u of
                        Some playlist_id \<Rightarrow>
                          Inr \<lparr>url_type = Playlist, url_id = playlist_id,
                               clean_url =
                                 ''https://www.youtube.com/playlist?list='' @ playlist_id\<rparr>
                      | None \<Rightarrow>
                          Inl (Exn ValueError (Text ''Invalid YouTube URL format''))))))
      | _ \<Rightarrow> Inl (Exn ValueError (Text ''URL must be a non-empty string'')))"

section \<open>Extraction of the download link\<close>

record ydl_opts =
  quiet :: bool
  noplaylist :: bool
  format :: string
  extract_flat :: bool
  skip_download :: bool

text \<open>
  The extraction library is outside the program: \<open>yt_dlp.YoutubeDL(opts)\<close> followed by
  \<open>extract_info(url, download=False)\<close> is a parameter of the model, a function from the
  options and the URL to the metadata or to the exception the library raises. Every
  function that may call it returns, beside its outcome, the list of calls it made.
\<close>

type_synonym collaborator = "ydl_opts \<Rightarrow> string \<Rightarrow> exn + pyval"

type_synonym calls = "(ydl_opts \<times> string) list"

record extraction =
  title :: pyval
  download_url :: pyval

definition mode_error :: string where
  \<comment> \<open>the text \<open>Mode must be 'audio' or 'video'\<close>, which ends with a quote character\<close>
  "mode_error = ''Mode must be 'audio' or 'video'' @ [CHR 0x27]"

definition options_for_mode :: "pyval \<Rightarrow> exn + ydl_opts" where
  \<comment> \<open>the \<open>if mode == "audio" ... elif mode == "video" ... else raise\<close> chain\<close>
  "options_for_mode mode =
     (if mode = PStr ''audio''
      then Inr \<lparr>quiet = True, noplaylist = True, format = ''bestaudio/best'',
                extract_flat = False, skip_download = True\<rparr>
      else if mode = PStr ''video''
      then Inr \<lparr>quiet = True, noplaylist = True, format = ''best[ext=mp4]/best'',
                extract_flat = False, skip_download = True\<rparr>
      else Inl (Exn ValueError (Text mode_error)))"

definition has_entries :: "pyval \<Rightarrow> exn + bool" where
  \<comment> \<open>\<open>"entries" in info\<close>\<close>
  "has_entries info =
     (case info of
        PDict d \<Rightarrow> Inr (map_of d ''entries'' \<noteq> None)
      | PList xs \<Rightarrow> Inr (PStr ''entries'' \<in> set xs)
      | PStr s \<Rightarrow> Inr (contains ''entries'' s)
      | _ \<Rightarrow> Inl (Exn TypeError NotAContainer))"

definition get_entries :: "pyval \<Rightarrow> exn + pyval" where
  \<comment> \<open>\<open>info["entries"]\<close>; the text of a \<open>KeyError\<close> is the key's \<open>repr\<close>\<close>
  "get_entries info =
     (case info of
        PDict d \<Rightarrow>
          (case map_of d ''entries'' of
             Some v \<Rightarrow> Inr v
           | None \<Rightarrow> Inl (Exn KeyError (Text (CHR 0x27 # ''entries'' @ [CHR 0x27]))))
      | PList xs \<Rightarrow> Inl (Exn TypeError BadIndexType)
      | PStr s \<Rightarrow> Inl (Exn TypeError BadIndexType)
      | _ \<Rightarrow> Inl (Exn TypeError NotSubscriptable))"

definition item0 :: "pyval \<Rightarrow> exn + pyval" where
  \<comment> \<open>\<open>v[0]\<close>\<close>
  "item0 v =
     (case v of
        PList xs \<Rightarrow> (case xs of [] \<Rightarrow> Inl (Exn IndexError IndexOutOfRange) | x # _ \<Rightarrow> Inr x)
      | PStr s \<Rightarrow>
          (case s of [] \<Rightarrow> Inl (Exn IndexError IndexOutOfRange) | c # _ \<Rightarrow> Inr (PStr [c]))
      | PDict d \<Rightarrow> Inl (Exn KeyError (Text ''0''))
      | _ \<Rightarrow> Inl (Exn TypeError NotSubscriptable))"

definition select_entry :: "pyval \<Rightarrow> exn + pyval" where
  \<comment> \<open>\<open>if "entries" in info: info = info["entries"][0]\<close>\<close>
  "select_entry info =
     (case has_entries info of
        Inl e \<Rightarrow> Inl e
      | Inr False \<Rightarrow> Inr info
      | Inr True \<Rightarrow>
          (case get_entries info of
             Inl e \<Rightarrow> Inl e
           | Inr v \<Rightarrow> item0 v))"

definition dict_get :: "pyval \<Rightarrow> string \<Rightarrow> pyval \<Rightarrow> exn + pyval" where
  \<comment> \<open>\<open>info.get(key, default)\<close>\<close>
  "dict_get info k dflt =
     (case info of
        PDict d \<Rightarrow> (case map_of d k of Some v \<Rightarrow> Inr v | None \<Rightarrow> Inr dflt)
      | _ \<Rightarrow> Inl (Exn AttributeError NoAttributeGet))"

fun truthy :: "pyval \<Rightarrow> bool" where
  "truthy PNone = False"
| "truthy (PBool b) = b"
| "truthy (PInt i) = (i \<noteq> 0)"
| "truthy (PStr s) = (s \<noteq> [])"
| "truthy (PList xs) = (xs \<noteq> [])"
| "truthy (PDict d) = (d \<noteq> [])"

definition read_info :: "pyval \<Rightarrow> exn + extraction" where
  \<comment> \<open>from \<open>download_url = info.get("url")\<close> to the \<open>return\<close>\<close>
  "read_info info =
     (case dict_get info ''url'' PNone of
        Inl e \<Rightarrow> Inl e
      | Inr u \<Rightarrow>
          (case dict_get info ''title'' (PStr ''video'') of
             Inl e \<Rightarrow> Inl e
           | Inr t \<Rightarrow>
               (if \<not> truthy u
                then Inl (Exn RuntimeError (Text ''Could not extract download URL''))
                else Inr \<lparr>title = t, download_url = u\<rparr>)))"

definition extract_body :: "collaborator \<Rightarrow> pyval \<Rightarrow> pyval \<Rightarrow> (exn + extraction) \<times> calls" where
  \<comment> \<open>the body of the \<open>try\<close> of \<open>extract_download_link\<close>\<close>
  "extract_body ydl url mode =
     (case validate_youtube_url url of
        Inl e \<Rightarrow> (Inl e, [])
      | Inr validated_url \<Rightarrow>
          (let u = clean_url validated_url in
           case options_for_mode mode of
             Inl e \<Rightarrow> (Inl e, [])
           | Inr opts \<Rightarrow>
               (case ydl opts u of
                  Inl e \<Rightarrow> (Inl e, [(opts, u)])
                | Inr info \<Rightarrow>
                    (case select_entry info of
                       Inl e \<Rightarrow> (Inl e, [(opts, u)])
                     | Inr entry \<Rightarrow> (read_info entry, [(opts, u)])))))"

definition extract_download_link ::
  "collaborator \<Rightarrow> pyval \<Rightarrow> pyval \<Rightarrow> (exn + extraction) \<times> calls" where
  \<comment> \<open>\<open>except Exception as e: raise RuntimeError(str(e))\<close> around the body\<close>
  "extract_download_link ydl url mode =
     (case extract_body ydl url mode of
        (Inl e, cs) \<Rightarrow> (Inl (Exn RuntimeError (str_of_exn e)), cs)
      | (Inr r, cs) \<Rightarrow> (Inr r, cs))"

section \<open>The HTTP endpoint\<close>

record DownloadRequest =
  url :: string
  mode :: string

datatype response =
    Success pyval pyval
  | HTTPException nat message
  | Uncaught exn

fun status_code :: "response \<Rightarrow> nat option" where
  "status_code (Success t u) = Some 200"
| "status_code (HTTPException n m) = Some n"
| "status_code (Uncaught e) = None"

definition download_endpoint :: "collaborator \<Rightarrow> DownloadRequest \<Rightarrow> response \<times> calls" where
  "download_endpoint ydl request =
     (case extract_download_link ydl (PStr (url request)) (PStr (lower (mode request))) of
        (Inr result, cs) \<Rightarrow> (Success (title result) (download_url result), cs)
      | (Inl (Exn ValueError m), cs) \<Rightarrow> (HTTPException 400 m, cs)
      | (Inl (Exn RuntimeError m), cs) \<Rightarrow> (HTTPException 500 m, cs)
      | (Inl e, cs) \<Rightarrow> (Uncaught e, cs))"

section \<open>Strings and searches\<close>

lemma idchar_not_space: "idchar c \<Longrightarrow> \<not> isspace c"
  by (auto simp: idchar_def isspace_def Let_def)

lemma dot_not_idchar: "\<not> idchar CHR ''.''"
  by (simp add: idchar_def)

lemma strip_unchanged:
  assumes "s \<noteq> []" "\<not> isspace (hd s)" "\<not> isspace (last s)"
  shows "strip s = s"
proof -
  from assms have a: "dropWhile isspace s = s" by (cases s) auto
  from assms have "rev s \<noteq> []" "\<not> isspace (hd (rev s))" by (auto simp: hd_rev)
  then have "dropWhile isspace (rev s) = rev s" by (cases "rev s") auto
  with a show ?thesis by (simp add: strip_def)
qed

lemma strip_all_space: "list_all isspace s \<Longrightarrow> strip s = []"
proof -
  assume "list_all isspace s"
  then have "dropWhile isspace s = []" by (simp only: dropWhile_eq_Nil_conv list_all_iff)
  then show ?thesis by (simp only: strip_def rev.simps dropWhile.simps)
qed

lemma strip_empty_iff: "strip s = [] \<longleftrightarrow> list_all isspace s"
proof
  assume "strip s = []"
  then have a: "dropWhile isspace (rev (dropWhile isspace s)) = []" by (simp add: strip_def)
  have "dropWhile isspace s = []"
  proof (rule ccontr)
    assume n: "dropWhile isspace s \<noteq> []"
    then have h: "\<not> isspace (hd (dropWhile isspace s))" by (rule hd_dropWhile)
    from n have "hd (dropWhile isspace s) \<in> set (rev (dropWhile isspace s))" by simp
    moreover from a have "\<forall>x\<in>set (rev (dropWhile isspace s)). isspace x"
      by (simp only: dropWhile_eq_Nil_conv)
    ultimately show False using h by blast
  qed
  then show "list_all isspace s" by (simp only: dropWhile_eq_Nil_conv list_all_iff)
qed (rule strip_all_space)

lemma literal_Some_iff: "literal lit s = Some r \<longleftrightarrow> s = lit @ r"
  by (induction lit s rule: literal.induct) auto

lemma literal_None_if_not_in:
  "a \<in> set lit \<Longrightarrow> a \<notin> set s \<Longrightarrow> literal lit s = None"
  by (induction lit s rule: literal.induct) auto

lemma re_search_Some_split:
  "re_search p s = Some g \<Longrightarrow> \<exists>pre suf. s = pre @ suf \<and> p suf = Some g"
proof (induction s)
  case Nil
  then show ?case by simp
next
  case (Cons c cs)
  show ?case
  proof (cases "p (c # cs)")
    case None
    with Cons obtain pre suf where "cs = pre @ suf" "p suf = Some g" by auto
    then have "c # cs = (c # pre) @ suf \<and> p suf = Some g" by simp
    then show ?thesis by blast
  next
    case (Some a)
    with Cons.prems have "c # cs = [] @ (c # cs) \<and> p (c # cs) = Some g" by simp
    then show ?thesis by blast
  qed
qed

lemma re_search_found: "p suf = Some g \<Longrightarrow> re_search p (pre @ suf) \<noteq> None"
proof (induction pre)
  case Nil
  then show ?case by (cases suf) auto
next
  case (Cons c pre)
  then show ?case by (auto split: option.splits)
qed

lemma contains_iff: "contains sub s \<longleftrightarrow> (\<exists>pre suf. s = pre @ sub @ suf)"
proof (induction s)
  case Nil
  then show ?case by auto
next
  case (Cons c cs)
  show ?case
  proof (cases "literal sub (c # cs)")
    case None
    then have n: "\<And>r. c # cs \<noteq> sub @ r" by (metis literal_Some_iff option.distinct(1))
    have "(\<exists>pre suf. c # cs = pre @ sub @ suf) \<longleftrightarrow> (\<exists>pre suf. cs = pre @ sub @ suf)"
    proof
      assume "\<exists>pre suf. c # cs = pre @ sub @ suf"
      then obtain pre suf where e: "c # cs = pre @ sub @ suf" by blast
      with n have "pre \<noteq> []" by (metis append_Nil)
      with e obtain pre' where "pre = c # pre'" by (cases pre) auto
      with e have "cs = pre' @ sub @ suf" by simp
      then show "\<exists>pre suf. cs = pre @ sub @ suf" by blast
    next
      assume "\<exists>pre suf. cs = pre @ sub @ suf"
      then obtain pre suf where "cs = pre @ sub @ suf" by blast
      then have "c # cs = (c # pre) @ sub @ suf" by simp
      then show "\<exists>pre suf. c # cs = pre @ sub @ suf" by blast
    qed
    with None Cons show ?thesis by simp
  next
    case (Some r)
    then have "c # cs = [] @ sub @ r" by (simp add: literal_Some_iff)
    then have "\<exists>pre suf. c # cs = pre @ sub @ suf" by blast
    with Some show ?thesis by simp
  qed
qed

lemma strip_is_infix: "\<exists>l r. s = l @ strip s @ r"
proof -
  let ?a = "dropWhile isspace s"
  have "rev (takeWhile isspace (rev ?a) @ dropWhile isspace (rev ?a)) = rev (rev ?a)"
    by (simp only: takeWhile_dropWhile_id)
  then have "?a = strip s @ rev (takeWhile isspace (rev ?a))"
    by (simp only: rev_append rev_rev_ident strip_def)
  then obtain r where 2: "?a = strip s @ r" by blast
  have "takeWhile isspace s @ ?a = s" by (rule takeWhile_dropWhile_id)
  then have "s = takeWhile isspace s @ strip s @ r" by (simp only: 2)
  then show ?thesis by blast
qed

lemma contains_strip: "contains sub (strip s) \<Longrightarrow> contains sub s"
proof -
  assume "contains sub (strip s)"
  then obtain pre suf where e: "strip s = pre @ sub @ suf" by (auto simp: contains_iff)
  obtain l r where lr: "s = l @ strip s @ r" using strip_is_infix by blast
  have "l @ strip s @ r = (l @ pre) @ sub @ (suf @ r)" by (simp add: e)
  with lr have "s = (l @ pre) @ sub @ (suf @ r)" by (rule trans)
  then show ?thesis unfolding contains_iff by blast
qed

lemma contains_infix: "s = pre @ sub @ suf \<Longrightarrow> contains sub s"
  unfolding contains_iff by blast

lemma host_re_Some:
  assumes "host_re s \<noteq> None"
  shows "literal ''youtube.com'' s \<noteq> None \<or> literal ''youtu.be'' s \<noteq> None"
  using assms by (simp add: host_re_def split: option.splits)

lemma literal_contains:
  assumes "literal lit suf \<noteq> None"
  shows "contains lit (pre @ suf)"
proof -
  from assms obtain r where "literal lit suf = Some r" by blast
  then have "suf = lit @ r" by (simp only: literal_Some_iff)
  then have "pre @ suf = pre @ lit @ r" by (rule arg_cong)
  then show ?thesis by (rule contains_infix)
qed

lemma host_search_contains:
  assumes "re_search host_re s \<noteq> None"
  shows "contains ''youtube.com'' s \<or> contains ''youtu.be'' s"
proof -
  from assms obtain g where "re_search host_re s = Some g" by blast
  then have "\<exists>pre suf. s = pre @ suf \<and> host_re suf = Some g"
    by (rule re_search_Some_split)
  then obtain pre suf where s: "s = pre @ suf" and "host_re suf = Some g"
    by (elim exE conjE)
  then have "host_re suf \<noteq> None" by (simp only: option.distinct not_False_eq_True)
  then have "literal ''youtube.com'' suf \<noteq> None \<or> literal ''youtu.be'' suf \<noteq> None"
    by (rule host_re_Some)
  then show ?thesis unfolding s using literal_contains by blast
qed

lemma id11_re_SomeD:
  assumes "id11_re lit s = Some g"
  shows "\<exists>suf. s = lit @ g @ suf" and "length g = 11" and "list_all idchar g"
proof -
  from assms obtain rest where l: "literal lit s = Some rest"
    and g: "g = take 11 rest" and n: "length (take 11 rest) = 11" and i: "list_all idchar (take 11 rest)"
    by (auto simp: id11_re_def Let_def split: option.splits if_splits)
  from l have "s = lit @ rest" by (simp only: literal_Some_iff)
  also have "rest = take 11 rest @ drop 11 rest" by simp
  finally have "s = lit @ g @ drop 11 rest" by (simp only: g)
  then show "\<exists>suf. s = lit @ g @ suf" by (rule exI)
  from g n show "length g = 11" by simp
  from g i show "list_all idchar g" by simp
qed

lemma id11_re_SomeI:
  assumes "length g = 11" "list_all idchar g"
  shows "id11_re lit (lit @ g @ suf) = Some g"
proof -
  have "literal lit (lit @ g @ suf) = Some (g @ suf)" by (simp only: literal_Some_iff)
  with assms show ?thesis by (simp add: id11_re_def)
qed

lemma dropWhile_keeps_infix:
  assumes "m \<noteq> []" "\<not> P (hd m)"
  shows "\<exists>pre'. dropWhile P (pre @ m @ suf) = pre' @ m @ suf"
proof (induction pre)
  case Nil
  from assms have "dropWhile P (m @ suf) = m @ suf" by (cases m) auto
  then have "dropWhile P ([] @ m @ suf) = [] @ m @ suf" by simp
  then show ?case by (rule exI)
next
  case (Cons c pre)
  show ?case
  proof (cases "P c")
    case True
    with Cons show ?thesis by simp
  next
    case False
    then have "dropWhile P ((c # pre) @ m @ suf) = (c # pre) @ m @ suf" by simp
    then show ?thesis by (rule exI)
  qed
qed

lemma strip_keeps_infix:
  assumes "m \<noteq> []" "\<not> isspace (hd m)" "\<not> isspace (last m)"
  shows "\<exists>pre' suf'. strip (pre @ m @ suf) = pre' @ m @ suf'"
proof -
  from assms(1,2) obtain pre' where 1: "dropWhile isspace (pre @ m @ suf) = pre' @ m @ suf"
    using dropWhile_keeps_infix by blast
  from assms have "rev m \<noteq> []" "\<not> isspace (hd (rev m))" by (simp_all add: hd_rev)
  then obtain r where 2: "dropWhile isspace (rev suf @ rev m @ rev pre') = r @ rev m @ rev pre'"
    using dropWhile_keeps_infix by blast
  have "strip (pre @ m @ suf) = rev (dropWhile isspace (rev (pre' @ m @ suf)))"
    by (simp only: strip_def 1)
  also have "\<dots> = rev (r @ rev m @ rev pre')" using 2 by simp
  also have "\<dots> = pre' @ m @ rev r" by simp
  finally show ?thesis by blast
qed

lemma hostchar_not_space: "\<not> isspace CHR ''y''"
  by (simp add: isspace_def)

lemma video_match_strip:
  assumes "re_search (id11_re (CHR ''y'' # lit)) s = Some g"
  shows "\<exists>pre suf g'. strip s = pre @ (CHR ''y'' # lit) @ g' @ suf \<and> length g' = 11 \<and> list_all idchar g'"
proof -
  let ?p = "CHR ''y'' # lit"
  from assms have "\<exists>pre suf. s = pre @ suf \<and> id11_re ?p suf = Some g"
    by (rule re_search_Some_split)
  then obtain pre suf where s: "s = pre @ suf" and m: "id11_re ?p suf = Some g"
    by (elim exE conjE)
  from m obtain suf' where suf: "suf = ?p @ g @ suf'" using id11_re_SomeD(1) by blast
  from m have len: "length g = 11" and idc: "list_all idchar g" by (rule id11_re_SomeD)+
  from len have ne: "g \<noteq> []" by auto
  with idc have "idchar (last g)" by (simp add: list_all_iff)
  then have "\<not> isspace (last g)" by (rule idchar_not_space)
  with ne have a: "?p @ g \<noteq> []" "\<not> isspace (hd (?p @ g))" "\<not> isspace (last (?p @ g))"
    by (simp_all add: hostchar_not_space)
  have "\<exists>pre' suf''. strip (pre @ (?p @ g) @ suf') = pre' @ (?p @ g) @ suf''"
    using a by (rule strip_keeps_infix)
  then obtain pre' suf'' where "strip (pre @ (?p @ g) @ suf') = pre' @ (?p @ g) @ suf''"
    by (elim exE)
  then have "strip s = pre' @ ?p @ g @ suf''" by (simp add: s suf)
  with len idc show ?thesis by blast
qed

section \<open>Validation\<close>

lemma re_search_id11_idchars:
  assumes "CHR ''.'' \<in> set lit" "list_all idchar s"
  shows "re_search (id11_re lit) s = None"
  using assms
proof (induction s)
  case Nil
  then show ?case by (cases lit) (auto simp: id11_re_def)
next
  case (Cons c cs)
  from Cons.prems have "CHR ''.'' \<notin> set (c # cs)" using dot_not_idchar by (auto simp: list_all_iff)
  with Cons.prems have "literal lit (c # cs) = None" by (rule_tac literal_None_if_not_in)
  with Cons show ?case by (simp add: id11_re_def)
qed

lemma idchars_strip:
  assumes "g \<noteq> []" "list_all idchar g" "\<not> isspace (hd (p @ g))"
  shows "strip (p @ g) = p @ g"
proof -
  from assms have "idchar (last g)" by (simp add: list_all_iff)
  then have "\<not> isspace (last g)" by (rule idchar_not_space)
  with assms show ?thesis by (intro strip_unchanged) auto
qed

lemma first_video_match_found:
  "p \<in> set ps \<Longrightarrow> re_search (id11_re p) u \<noteq> None \<Longrightarrow> first_video_match ps u \<noteq> None"
  by (induction ps) (auto split: option.splits)



text \<open>
  Claim C4. A playlist URL \<open>https://www.youtube.com/playlist?list=<id>\<close>, with a
  non-empty identifier over \<open>[A-Za-z0-9_-]\<close>, matches none of the video patterns and
  validates to a playlist with that identifier and the same URL as its canonical form.
\<close>
theorem playlist_form_canonical:
  assumes "pid \<noteq> []" and "list_all idchar pid"
  shows "first_video_match video_patterns (''https://www.youtube.com/playlist?list='' @ pid) = None
       \<and> validate_youtube_url (PStr (''https://www.youtube.com/playlist?list='' @ pid)) =
           Inr \<lparr>url_type = Playlist, url_id = pid,
                clean_url = ''https://www.youtube.com/playlist?list='' @ pid\<rparr>"
proof -
  have h: "\<not> isspace CHR ''h''" by (simp add: isspace_def)
  have s: "strip (''https://www.youtube.com/playlist?list='' @ pid) = ''https://www.youtube.com/playlist?list='' @ pid"
    using assms by (rule idchars_strip) (simp add: h)
  have n1: "re_search (id11_re ''youtube.com/watch?v='') pid = None"
    using assms(2) by (intro re_search_id11_idchars) simp_all
  have n2: "re_search (id11_re ''youtu.be/'') pid = None"
    using assms(2) by (intro re_search_id11_idchars) simp_all
  have n3: "re_search (id11_re ''youtube.com/shorts/'') pid = None"
    using assms(2) by (intro re_search_id11_idchars) simp_all
  have v: "first_video_match video_patterns (''https://www.youtube.com/playlist?list='' @ pid) = None"
    by (simp add: video_patterns_def id11_re_def n1 n2 n3)
  from assms(2) have t: "takeWhile idchar pid = pid" by (simp add: list_all_iff)
  have "validate_youtube_url (PStr (''https://www.youtube.com/playlist?list='' @ pid)) =
           Inr \<lparr>url_type = Playlist, url_id = pid,
                clean_url = ''https://www.youtube.com/playlist?list='' @ pid\<rparr>"
    using assms(1)
    apply (simp only: validate_youtube_url_def s pyval.case Let_def v)
    apply (simp add: host_re_def idplus_re_def playlist_pattern_def t)
    done
  with v show ?thesis by (intro conjI)
qed

text \<open>A playlist URL, evaluated.\<close>
theorem playlist_form_canonical_witness:
  "''PL123-_x'' \<noteq> [] \<and> list_all idchar ''PL123-_x''
   \<and> first_video_match video_patterns ''https://www.youtube.com/playlist?list=PL123-_x'' = None
   \<and> validate_youtube_url (PStr ''https://www.youtube.com/playlist?list=PL123-_x'') =
       Inr \<lparr>url_type = Playlist, url_id = ''PL123-_x'',
            clean_url = ''https://www.youtube.com/playlist?list=PL123-_x''\<rparr>"
proof -
  have a: "''PL123-_x'' \<noteq> []" by simp
  have b: "list_all idchar ''PL123-_x''" by (simp add: idchar_def)
  from a b playlist_form_canonical [OF a b] show ?thesis by simp
qed

lemma video_pattern_host:
  assumes "p \<in> set video_patterns"
  shows "\<exists>lit. p = CHR ''y'' # lit" and "host_re (p @ r) \<noteq> None"
  using assms by (auto simp: video_patterns_def host_re_def)

text \<open>
  Claim C5. When the input matches one of the video patterns and the playlist pattern as
  well, validation returns a video: the loop over the video patterns runs first and its
  first match decides the identifier.
\<close>
theorem video_checked_before_playlist:
  assumes "\<exists>p \<in> set video_patterns. re_search (id11_re p) s \<noteq> None"
    and "re_search (idplus_re playlist_pattern) s \<noteq> None"
  shows "\<exists>g. first_video_match video_patterns (strip s) = Some g
            \<and> validate_youtube_url (PStr s) =
                Inr \<lparr>url_type = Video, url_id = g,
                     clean_url = ''https://www.youtube.com/watch?v='' @ g\<rparr>"
proof -
  from assms(1) obtain p g0 where p: "p \<in> set video_patterns"
    and m: "re_search (id11_re p) s = Some g0" by blast
  from p obtain lit where lit: "p = CHR ''y'' # lit" using video_pattern_host(1) by blast
  from m have "\<exists>pre suf g'. strip s = pre @ (CHR ''y'' # lit) @ g' @ suf
      \<and> length g' = 11 \<and> list_all idchar g'"
    unfolding lit by (rule video_match_strip)
  then obtain pre suf g' where u: "strip s = pre @ p @ g' @ suf"
    and g': "length g' = 11" "list_all idchar g'"
    unfolding lit by (elim exE conjE)
  from u lit have ne: "strip s \<noteq> []" by simp
  from p have "host_re (p @ g' @ suf) \<noteq> None" by (rule video_pattern_host(2))
  then obtain x where "host_re (p @ g' @ suf) = Some x" by blast
  then have "re_search host_re (pre @ p @ g' @ suf) \<noteq> None" by (rule re_search_found)
  then have host: "re_search host_re (strip s) \<noteq> None" unfolding u .
  from g' have "id11_re p (p @ g' @ suf) = Some g'" by (rule id11_re_SomeI)
  then have "re_search (id11_re p) (pre @ p @ g' @ suf) \<noteq> None" by (rule re_search_found)
  then have "re_search (id11_re p) (strip s) \<noteq> None" unfolding u .
  with p have "first_video_match video_patterns (strip s) \<noteq> None"
    by (rule first_video_match_found)
  then obtain g where g: "first_video_match video_patterns (strip s) = Some g" by blast
  with ne host have "validate_youtube_url (PStr s) =
      Inr \<lparr>url_type = Video, url_id = g, clean_url = ''https://www.youtube.com/watch?v='' @ g\<rparr>"
    by (simp add: validate_youtube_url_def)
  with g show ?thesis by blast
qed

text \<open>A playlist URL that carries a \<open>youtu.be\<close> link in a parameter matches both.\<close>
theorem video_checked_before_playlist_witness:
  "(\<exists>p \<in> set video_patterns.
      re_search (id11_re p) ''https://www.youtube.com/playlist?list=PL123&u=youtu.be/dQw4w9WgXcQ'' \<noteq> None)
   \<and> re_search (idplus_re playlist_pattern)
        ''https://www.youtube.com/playlist?list=PL123&u=youtu.be/dQw4w9WgXcQ'' \<noteq> None
   \<and> validate_youtube_url (PStr ''https://www.youtube.com/playlist?list=PL123&u=youtu.be/dQw4w9WgXcQ'') =
       Inr \<lparr>url_type = Video, url_id = ''dQw4w9WgXcQ'',
            clean_url = ''https://www.youtube.com/watch?v=dQw4w9WgXcQ''\<rparr>"
proof -
  let ?s = "''https://www.youtube.com/playlist?list=PL123&u=youtu.be/dQw4w9WgXcQ''"
  have a: "\<exists>p \<in> set video_patterns. re_search (id11_re p) ?s \<noteq> None"
    by (simp add: video_patterns_def id11_re_def idchar_def)
  have b: "re_search (idplus_re playlist_pattern) ?s \<noteq> None"
    by (simp add: playlist_pattern_def idplus_re_def idchar_def)
  have c: "strip ?s = ?s" by (simp add: strip_def isspace_def)
  have d: "first_video_match video_patterns ?s = Some ''dQw4w9WgXcQ''"
    by (simp add: video_patterns_def id11_re_def idchar_def)
  from video_checked_before_playlist [OF a b] c d
  have "validate_youtube_url (PStr ?s) =
       Inr \<lparr>url_type = Video, url_id = ''dQw4w9WgXcQ'',
            clean_url = ''https://www.youtube.com/watch?v=dQw4w9WgXcQ''\<rparr>"
    by auto
  with a b show ?thesis by (intro conjI)
qed

text \<open>
  Claim C6, as amended. A string that is not blank (something is left after
  \<open>strip()\<close>) and contains neither \<open>youtube.com\<close> nor \<open>youtu.be\<close> fails with
  \<open>ValueError("Not a valid YouTube URL")\<close>; no identifier pattern has a part in the
  outcome.
\<close>
theorem no_host_marker_invalid_source:
  assumes "strip s \<noteq> []"
    and "\<not> contains ''youtube.com'' s" and "\<not> contains ''youtu.be'' s"
  shows "validate_youtube_url (PStr s) = Inl (Exn ValueError (Text ''Not a valid YouTube URL''))"
proof -
  from assms(2,3) have "\<not> contains ''youtube.com'' (strip s)" "\<not> contains ''youtu.be'' (strip s)"
    using contains_strip by blast+
  then have "re_search host_re (strip s) = None" using host_search_contains by blast
  with assms(1) show ?thesis by (simp add: validate_youtube_url_def)
qed

text \<open>A URL of another site, evaluated.\<close>
theorem no_host_marker_invalid_source_witness:
  "strip ''https://vimeo.com/123'' \<noteq> []
   \<and> \<not> contains ''youtube.com'' ''https://vimeo.com/123''
   \<and> \<not> contains ''youtu.be'' ''https://vimeo.com/123''
   \<and> validate_youtube_url (PStr ''https://vimeo.com/123'') =
       Inl (Exn ValueError (Text ''Not a valid YouTube URL''))"
proof -
  have a: "strip ''https://vimeo.com/123'' \<noteq> []" by (simp add: strip_def isspace_def)
  have b: "\<not> contains ''youtube.com'' ''https://vimeo.com/123''" by simp
  have c: "\<not> contains ''youtu.be'' ''https://vimeo.com/123''" by simp
  from a b c no_host_marker_invalid_source [OF a b c] show ?thesis by (intro conjI)
qed

text \<open>
  Claim C6 as stated fails on a string of one space: it is not empty and has no host
  marker, but the emptiness check runs after \<open>strip()\<close> and answers first, with the
  message of the invalid-input error.
\<close>
theorem blank_string_not_invalid_source:
  "'' '' \<noteq> [] \<and> \<not> contains ''youtube.com'' '' '' \<and> \<not> contains ''youtu.be'' '' ''
   \<and> validate_youtube_url (PStr '' '') = Inl (Exn ValueError (Text ''URL must be a non-empty string''))
   \<and> validate_youtube_url (PStr '' '') \<noteq> Inl (Exn ValueError (Text ''Not a valid YouTube URL''))"
  by (simp add: validate_youtube_url_def strip_def isspace_def)

text \<open>
  Claim C7. An argument that is a string of whitespace only (the empty string included)
  or that is not a string fails with \<open>ValueError("URL must be a non-empty string")\<close>;
  neither the host pattern nor an identifier pattern has a part in the outcome.
\<close>
theorem blank_or_non_string_invalid_input:
  assumes "(\<exists>s. v = PStr s \<and> list_all isspace s) \<or> (\<forall>s. v \<noteq> PStr s)"
  shows "validate_youtube_url v = Inl (Exn ValueError (Text ''URL must be a non-empty string''))"
  using assms
proof
  assume "\<exists>s. v = PStr s \<and> list_all isspace s"
  then obtain s where u: "v = PStr s" and "list_all isspace s" by blast
  then have "strip s = []" by (simp only: strip_all_space)
  with u show ?thesis by (simp add: validate_youtube_url_def)
next
  assume "\<forall>s. v \<noteq> PStr s"
  then show ?thesis by (cases v) (simp_all add: validate_youtube_url_def)
qed

text \<open>The empty string, a blank string, \<open>None\<close> and an integer, evaluated.\<close>
theorem blank_or_non_string_invalid_input_witness:
  "list_all isspace [] \<and> list_all isspace [CHR '' '', CHR 0x09, CHR 0x0A]
   \<and> validate_youtube_url (PStr []) = Inl (Exn ValueError (Text ''URL must be a non-empty string''))
   \<and> validate_youtube_url (PStr [CHR '' '', CHR 0x09, CHR 0x0A]) =
       Inl (Exn ValueError (Text ''URL must be a non-empty string''))
   \<and> validate_youtube_url PNone = Inl (Exn ValueError (Text ''URL must be a non-empty string''))
   \<and> validate_youtube_url (PInt 42) = Inl (Exn ValueError (Text ''URL must be a non-empty string''))"
proof -
  have a: "list_all isspace []" by simp
  have b: "list_all isspace [CHR '' '', CHR 0x09, CHR 0x0A]" by (simp add: isspace_def)
  have c: "\<forall>s. PNone \<noteq> PStr s" by simp
  have d: "\<forall>s. PInt 42 \<noteq> PStr s" by simp
  from a have 1: "validate_youtube_url (PStr []) = Inl (Exn ValueError (Text ''URL must be a non-empty string''))"
    by (intro blank_or_non_string_invalid_input) blast
  from b have 2: "validate_youtube_url (PStr [CHR '' '', CHR 0x09, CHR 0x0A]) =
       Inl (Exn ValueError (Text ''URL must be a non-empty string''))"
    by (intro blank_or_non_string_invalid_input) blast
  from c have 3: "validate_youtube_url PNone = Inl (Exn ValueError (Text ''URL must be a non-empty string''))"
    by (intro blank_or_non_string_invalid_input) blast
  from d have 4: "validate_youtube_url (PInt 42) = Inl (Exn ValueError (Text ''URL must be a non-empty string''))"
    by (intro blank_or_non_string_invalid_input) blast
  from a b 1 2 3 4 show ?thesis by (intro conjI)
qed

section \<open>Extraction and the endpoint\<close>

lemma extract_download_link_wraps:
  "extract_download_link ydl u m =
     (case fst (extract_body ydl u m) of
        Inl e \<Rightarrow> Inl (Exn RuntimeError (str_of_exn e))
      | Inr r \<Rightarrow> Inr r,
      snd (extract_body ydl u m))"
  by (cases "extract_body ydl u m") (auto simp: extract_download_link_def split: sum.splits)

lemma download_endpoint_cases:
  "download_endpoint ydl req =
     (case fst (extract_body ydl (PStr (url req)) (PStr (lower (mode req)))) of
        Inl e \<Rightarrow> HTTPException 500 (str_of_exn e)
      | Inr r \<Rightarrow> Success (title r) (download_url r),
      snd (extract_body ydl (PStr (url req)) (PStr (lower (mode req)))))"
  by (simp add: download_endpoint_def extract_download_link_wraps split: sum.splits)

lemma extract_body_invalid_url:
  "validate_youtube_url u = Inl e \<Longrightarrow> extract_body ydl u m = (Inl e, [])"
  by (simp add: extract_body_def)

lemma extract_body_bad_mode:
  "validate_youtube_url u = Inr v \<Longrightarrow> options_for_mode m = Inl e \<Longrightarrow>
   extract_body ydl u m = (Inl e, [])"
  by (simp add: extract_body_def)

lemma extract_body_called:
  "validate_youtube_url u = Inr v \<Longrightarrow> options_for_mode m = Inr opts \<Longrightarrow>
   ydl opts (clean_url v) = Inr info \<Longrightarrow>
   extract_body ydl u m =
     (case select_entry info of Inl e \<Rightarrow> Inl e | Inr entry \<Rightarrow> read_info entry,
      [(opts, clean_url v)])"
  by (simp add: extract_body_def split: sum.splits)

text \<open>
  Claim C1 says that invalid input is answered with status 400. The handler has a branch
  for that (\<open>except ValueError\<close>), but \<open>extract_download_link\<close> has already turned
  every exception into a \<open>RuntimeError\<close>: a URL of no known host and a mode that is
  neither \<open>audio\<close> nor \<open>video\<close> are both answered with status 500, whatever the
  extraction library would do.
\<close>
theorem invalid_input_answered_500:
  "download_endpoint ydl \<lparr>url = ''not a url'', mode = ''audio''\<rparr> =
     (HTTPException 500 (Text ''Not a valid YouTube URL''), [])
   \<and> download_endpoint ydl \<lparr>url = ''https://youtu.be/dQw4w9WgXcQ'', mode = ''mp3''\<rparr> =
     (HTTPException 500 (Text mode_error), [])"
proof -
  have 1: "validate_youtube_url (PStr ''not a url'') =
      Inl (Exn ValueError (Text ''Not a valid YouTube URL''))"
    by (simp add: validate_youtube_url_def strip_def isspace_def host_re_def)
  have 2: "validate_youtube_url (PStr ''https://youtu.be/dQw4w9WgXcQ'') =
      Inr \<lparr>url_type = Video, url_id = ''dQw4w9WgXcQ'',
           clean_url = ''https://www.youtube.com/watch?v=dQw4w9WgXcQ''\<rparr>"
    by (simp add: validate_youtube_url_def strip_def isspace_def host_re_def id11_re_def
        idchar_def video_patterns_def)
  have 3: "lower ''audio'' = ''audio''" "lower ''mp3'' = ''mp3''"
    by (simp_all add: lower_def lower_char_def)
  have 4: "options_for_mode (PStr ''mp3'') = Inl (Exn ValueError (Text mode_error))"
    by (simp add: options_for_mode_def)
  show ?thesis
    by (simp add: download_endpoint_cases 3 extract_body_invalid_url [OF 1]
        extract_body_bad_mode [OF 2 4])
qed

text \<open>
  Claim C2. Every exception of the body of \<open>extract_download_link\<close> leaves the function
  as a \<open>RuntimeError\<close> with the same text; so a failed URL validation and a failed mode
  check are answered with status 500, every failure of the endpoint has status 500, and
  no request is answered with status 400.
\<close>
theorem every_failure_is_runtime_error:
  "(\<forall>e. fst (extract_body ydl u m) = Inl e \<longrightarrow>
        fst (extract_download_link ydl u m) = Inl (Exn RuntimeError (str_of_exn e)))
   \<and> (\<forall>e. fst (extract_download_link ydl u m) = Inl e \<longrightarrow> (\<exists>t. e = Exn RuntimeError t))
   \<and> (\<forall>e. validate_youtube_url (PStr (url req)) = Inl e \<longrightarrow>
        download_endpoint ydl req = (HTTPException 500 (str_of_exn e), []))
   \<and> (\<forall>v e. validate_youtube_url (PStr (url req)) = Inr v
          \<and> options_for_mode (PStr (lower (mode req))) = Inl e \<longrightarrow>
        download_endpoint ydl req = (HTTPException 500 (str_of_exn e), []))
   \<and> (\<forall>e. fst (extract_download_link ydl (PStr (url req)) (PStr (lower (mode req)))) = Inl e \<longrightarrow>
        status_code (fst (download_endpoint ydl req)) = Some 500)
   \<and> status_code (fst (download_endpoint ydl req)) \<noteq> Some 400"
proof (intro conjI allI impI)
  fix e assume "fst (extract_body ydl u m) = Inl e"
  then show "fst (extract_download_link ydl u m) = Inl (Exn RuntimeError (str_of_exn e))"
    by (simp add: extract_download_link_wraps)
next
  fix e assume "fst (extract_download_link ydl u m) = Inl e"
  then show "\<exists>t. e = Exn RuntimeError t"
    by (auto simp: extract_download_link_wraps split: sum.splits)
next
  fix e assume "validate_youtube_url (PStr (url req)) = Inl e"
  then show "download_endpoint ydl req = (HTTPException 500 (str_of_exn e), [])"
    by (simp add: download_endpoint_cases extract_body_invalid_url)
next
  fix v e assume "validate_youtube_url (PStr (url req)) = Inr v
          \<and> options_for_mode (PStr (lower (mode req))) = Inl e"
  then show "download_endpoint ydl req = (HTTPException 500 (str_of_exn e), [])"
    by (simp add: download_endpoint_cases extract_body_bad_mode)
next
  fix e assume "fst (extract_download_link ydl (PStr (url req)) (PStr (lower (mode req)))) = Inl e"
  then show "status_code (fst (download_endpoint ydl req)) = Some 500"
    by (auto simp: download_endpoint_cases extract_download_link_wraps split: sum.splits)
next
  show "status_code (fst (download_endpoint ydl req)) \<noteq> Some 400"
    by (simp add: download_endpoint_cases split: sum.splits)
qed


text \<open>A URL of no known host: the \<open>ValueError\<close> of the validator arrives as status 500.\<close>
theorem every_failure_is_runtime_error_witness:
  "validate_youtube_url (PStr ''not a url'') =
     Inl (Exn ValueError (Text ''Not a valid YouTube URL''))
   \<and> fst (extract_download_link (\<lambda>opts u. Inr PNone) (PStr ''not a url'') (PStr ''audio'')) =
       Inl (Exn RuntimeError (Text ''Not a valid YouTube URL''))
   \<and> download_endpoint (\<lambda>opts u. Inr PNone) \<lparr>url = ''not a url'', mode = ''audio''\<rparr> =
       (HTTPException 500 (Text ''Not a valid YouTube URL''), [])"
proof -
  have 1: "validate_youtube_url (PStr ''not a url'') =
      Inl (Exn ValueError (Text ''Not a valid YouTube URL''))"
    by (simp add: validate_youtube_url_def strip_def isspace_def host_re_def)
  then have 2: "fst (extract_body (\<lambda>opts u. Inr PNone) (PStr ''not a url'') (PStr ''audio'')) =
      Inl (Exn ValueError (Text ''Not a valid YouTube URL''))"
    by (simp add: extract_body_invalid_url)
  from 1 2
    every_failure_is_runtime_error [of "\<lambda>opts u. Inr PNone" "PStr ''not a url''" "PStr ''audio''"
      "\<lparr>url = ''not a url'', mode = ''audio''\<rparr>"]
  show ?thesis by simp
qed

text \<open>
  Claim C8 says that a request whose URL validates and whose lowercased mode is neither
  \<open>audio\<close> nor \<open>video\<close> fails with an invalid-input error before the extraction
  library is called. The library is indeed never called: the list of calls is empty. But
  the \<open>ValueError("Mode must be 'audio' or 'video'")\<close> raised in the body does not leave
  \<open>extract_download_link\<close>: the function fails with a \<open>RuntimeError\<close> of the same
  text, and the endpoint answers with status 500, the answer of an extraction failure,
  where its own \<open>except ValueError\<close> branch would have answered 400.
\<close>
theorem bad_mode_fails_before_extraction:
  assumes "validate_youtube_url (PStr (url req)) = Inr v"
    and "lower (mode req) \<noteq> ''audio''" and "lower (mode req) \<noteq> ''video''"
  shows "extract_body ydl (PStr (url req)) (PStr (lower (mode req))) =
           (Inl (Exn ValueError (Text mode_error)), [])
       \<and> extract_download_link ydl (PStr (url req)) (PStr (lower (mode req))) =
           (Inl (Exn RuntimeError (Text mode_error)), [])
       \<and> download_endpoint ydl req = (HTTPException 500 (Text mode_error), [])"
proof -
  from assms(2,3)
  have "options_for_mode (PStr (lower (mode req))) = Inl (Exn ValueError (Text mode_error))"
    by (simp add: options_for_mode_def)
  with assms(1)
  have b: "extract_body ydl (PStr (url req)) (PStr (lower (mode req))) =
      (Inl (Exn ValueError (Text mode_error)), [])"
    by (rule extract_body_bad_mode)
  then show ?thesis by (simp add: extract_download_link_wraps download_endpoint_cases)
qed

text \<open>The mode \<open>MP3\<close> on a valid URL, with a library that would have succeeded.\<close>
theorem bad_mode_fails_before_extraction_witness:
  "validate_youtube_url (PStr ''https://youtu.be/dQw4w9WgXcQ'') =
     Inr \<lparr>url_type = Video, url_id = ''dQw4w9WgXcQ'',
          clean_url = ''https://www.youtube.com/watch?v=dQw4w9WgXcQ''\<rparr>
   \<and> lower ''MP3'' \<noteq> ''audio'' \<and> lower ''MP3'' \<noteq> ''video''
   \<and> download_endpoint (\<lambda>opts u. Inr (PDict [(''url'', PStr ''https://cdn.example/a'')]))
        \<lparr>url = ''https://youtu.be/dQw4w9WgXcQ'', mode = ''MP3''\<rparr> =
       (HTTPException 500 (Text mode_error), [])"
proof -
  have 1: "validate_youtube_url (PStr (url \<lparr>url = ''https://youtu.be/dQw4w9WgXcQ'', mode = ''MP3''\<rparr>)) =
      Inr \<lparr>url_type = Video, url_id = ''dQw4w9WgXcQ'',
           clean_url = ''https://www.youtube.com/watch?v=dQw4w9WgXcQ''\<rparr>"
    by (simp add: validate_youtube_url_def strip_def isspace_def host_re_def id11_re_def
        idchar_def video_patterns_def)
  have l: "lower ''MP3'' = ''mp3''" by code_simp
  have 2: "lower (mode \<lparr>url = ''https://youtu.be/dQw4w9WgXcQ'', mode = ''MP3''\<rparr>) \<noteq> ''audio''"
    by (simp add: l)
  have 3: "lower (mode \<lparr>url = ''https://youtu.be/dQw4w9WgXcQ'', mode = ''MP3''\<rparr>) \<noteq> ''video''"
    by (simp add: l)
  from 1 2 3 bad_mode_fails_before_extraction [OF 1 2 3] show ?thesis by simp
qed

lemma empty_entries_raises:
  "map_of d ''entries'' = Some (PList []) \<Longrightarrow>
   select_entry (PDict d) = Inl (Exn IndexError IndexOutOfRange)"
  by (simp add: select_entry_def has_entries_def get_entries_def item0_def)

text \<open>
  Claim C9. When the library returns a dictionary whose \<open>entries\<close> is a list with a
  first element, that element is the entry selected and the library is called once. The
  result is read from that element alone: if it is a dictionary with a truthy \<open>url\<close>,
  the returned \<open>download_url\<close> is that \<open>url\<close> and the returned title is its
  \<open>title\<close>, or \<open>video\<close> when it has none; if its \<open>url\<close> is missing or falsy, the
  function fails with \<open>RuntimeError("Could not extract download URL")\<close>; if it is not
  a dictionary, \<open>.get\<close> fails and the function fails with the \<open>RuntimeError\<close> made
  of that. Neither the other entries nor the other keys of the outer dictionary occur in
  the outcome.
\<close>
theorem first_entry_only:
  assumes "validate_youtube_url u = Inr v" and "options_for_mode m = Inr opts"
    and "ydl opts (clean_url v) = Inr (PDict d)"
    and "map_of d ''entries'' = Some (PList (e # es))"
  shows "select_entry (PDict d) = Inr e
       \<and> snd (extract_download_link ydl u m) = [(opts, clean_url v)]
       \<and> (\<forall>de w. e = PDict de \<and> map_of de ''url'' = Some w \<and> truthy w \<longrightarrow>
             fst (extract_download_link ydl u m) =
               Inr \<lparr>title = (case map_of de ''title'' of Some t \<Rightarrow> t | None \<Rightarrow> PStr ''video''),
                    download_url = w\<rparr>)
       \<and> (\<forall>de. e = PDict de
               \<and> (map_of de ''url'' = None \<or> (\<exists>w. map_of de ''url'' = Some w \<and> \<not> truthy w)) \<longrightarrow>
             fst (extract_download_link ydl u m) =
               Inl (Exn RuntimeError (Text ''Could not extract download URL'')))
       \<and> ((\<forall>de. e \<noteq> PDict de) \<longrightarrow>
             fst (extract_download_link ydl u m) = Inl (Exn RuntimeError NoAttributeGet))"
proof -
  from assms(4) have s: "select_entry (PDict d) = Inr e"
    by (simp add: select_entry_def has_entries_def get_entries_def item0_def)
  from assms(1,2,3) have b: "extract_body ydl u m = (read_info e, [(opts, clean_url v)])"
    by (simp add: extract_body_called s)
  have c: "snd (extract_download_link ydl u m) = [(opts, clean_url v)]"
    by (simp add: extract_download_link_wraps b)
  have g: "\<forall>de w. e = PDict de \<and> map_of de ''url'' = Some w \<and> truthy w \<longrightarrow>
             fst (extract_download_link ydl u m) =
               Inr \<lparr>title = (case map_of de ''title'' of Some t \<Rightarrow> t | None \<Rightarrow> PStr ''video''),
                    download_url = w\<rparr>"
    by (auto simp: extract_download_link_wraps b read_info_def dict_get_def split: option.splits)
  have f: "\<forall>de. e = PDict de
               \<and> (map_of de ''url'' = None \<or> (\<exists>w. map_of de ''url'' = Some w \<and> \<not> truthy w)) \<longrightarrow>
             fst (extract_download_link ydl u m) =
               Inl (Exn RuntimeError (Text ''Could not extract download URL''))"
    by (auto simp: extract_download_link_wraps b read_info_def dict_get_def split: option.splits)
  have n: "(\<forall>de. e \<noteq> PDict de) \<longrightarrow>
             fst (extract_download_link ydl u m) = Inl (Exn RuntimeError NoAttributeGet)"
    by (cases e) (simp_all add: extract_download_link_wraps b read_info_def dict_get_def)
  from s c g f n show ?thesis by (intro conjI)
qed

text \<open>
  Two entries under a titled playlist: the result has the URL of the first entry and,
  since that entry has no title, the default title.
\<close>
theorem first_entry_only_witness:
  "validate_youtube_url (PStr ''https://www.youtube.com/playlist?list=PL123'') =
     Inr \<lparr>url_type = Playlist, url_id = ''PL123'',
          clean_url = ''https://www.youtube.com/playlist?list=PL123''\<rparr>
   \<and> options_for_mode (PStr ''video'') =
       Inr \<lparr>quiet = True, noplaylist = True, format = ''best[ext=mp4]/best'',
            extract_flat = False, skip_download = True\<rparr>
   \<and> map_of [(''title'', PStr ''Mix''),
              (''entries'', PList [PDict [(''url'', PStr ''https://cdn.example/1'')],
                                   PDict [(''title'', PStr ''Second''),
                                          (''url'', PStr ''https://cdn.example/2'')]])]
         ''entries'' =
       Some (PList [PDict [(''url'', PStr ''https://cdn.example/1'')],
                    PDict [(''title'', PStr ''Second''), (''url'', PStr ''https://cdn.example/2'')]])
   \<and> extract_download_link
         (\<lambda>opts u. Inr (PDict [(''title'', PStr ''Mix''),
              (''entries'', PList [PDict [(''url'', PStr ''https://cdn.example/1'')],
                                   PDict [(''title'', PStr ''Second''),
                                          (''url'', PStr ''https://cdn.example/2'')]])]))
         (PStr ''https://www.youtube.com/playlist?list=PL123'') (PStr ''video'') =
       (Inr \<lparr>title = PStr ''video'', download_url = PStr ''https://cdn.example/1''\<rparr>,
        [(\<lparr>quiet = True, noplaylist = True, format = ''best[ext=mp4]/best'',
            extract_flat = False, skip_download = True\<rparr>,
          ''https://www.youtube.com/playlist?list=PL123'')])"
proof -
  let ?d = "[(''title'', PStr ''Mix''),
              (''entries'', PList [PDict [(''url'', PStr ''https://cdn.example/1'')],
                                   PDict [(''title'', PStr ''Second''),
                                          (''url'', PStr ''https://cdn.example/2'')]])]"
  let ?v = "\<lparr>url_type = Playlist, url_id = ''PL123'',
          clean_url = ''https://www.youtube.com/playlist?list=PL123''\<rparr>"
  let ?o = "\<lparr>quiet = True, noplaylist = True, format = ''best[ext=mp4]/best'',
            extract_flat = False, skip_download = True\<rparr>"
  have 1: "validate_youtube_url (PStr ''https://www.youtube.com/playlist?list=PL123'') = Inr ?v"
    by (simp add: validate_youtube_url_def strip_def isspace_def host_re_def id11_re_def
        idplus_re_def idchar_def video_patterns_def playlist_pattern_def)
  have 2: "options_for_mode (PStr ''video'') = Inr ?o"
    by (simp add: options_for_mode_def)
  have 3: "(\<lambda>opts u. Inr (PDict ?d)) ?o (clean_url ?v) = (Inr (PDict ?d) :: exn + pyval)"
    by simp
  have 4: "map_of ?d ''entries'' =
       Some (PList [PDict [(''url'', PStr ''https://cdn.example/1'')],
                    PDict [(''title'', PStr ''Second''), (''url'', PStr ''https://cdn.example/2'')]])"
    by simp
  from first_entry_only [OF 1 2 3 4]
  have 5: "extract_download_link (\<lambda>opts u. Inr (PDict ?d))
         (PStr ''https://www.youtube.com/playlist?list=PL123'') (PStr ''video'') =
       (Inr \<lparr>title = PStr ''video'', download_url = PStr ''https://cdn.example/1''\<rparr>,
        [(?o, ''https://www.youtube.com/playlist?list=PL123'')])"
    by (simp add: prod_eq_iff)
  from 1 2 4 5 show ?thesis by (intro conjI)
qed

text \<open>
  Claim C10. Let the selected entry be a dictionary. If it has no \<open>url\<close> or a falsy
  one, \<open>extract_download_link\<close> fails with
  \<open>RuntimeError("Could not extract download URL")\<close> and the endpoint answers with status
  500. If it has a truthy \<open>url\<close> and no \<open>title\<close>, the result carries the title
  \<open>video\<close>.
\<close>
theorem missing_url_fails_default_title:
  assumes "validate_youtube_url (PStr (url req)) = Inr v"
    and "options_for_mode (PStr (lower (mode req))) = Inr opts"
    and "ydl opts (clean_url v) = Inr info"
    and "select_entry info = Inr (PDict d)"
  shows "((map_of d ''url'' = None \<or> (\<exists>w. map_of d ''url'' = Some w \<and> \<not> truthy w)) \<longrightarrow>
            fst (extract_download_link ydl (PStr (url req)) (PStr (lower (mode req)))) =
              Inl (Exn RuntimeError (Text ''Could not extract download URL''))
            \<and> fst (download_endpoint ydl req) =
              HTTPException 500 (Text ''Could not extract download URL''))
       \<and> (\<forall>w. map_of d ''url'' = Some w \<and> truthy w \<and> map_of d ''title'' = None \<longrightarrow>
            fst (extract_download_link ydl (PStr (url req)) (PStr (lower (mode req)))) =
              Inr \<lparr>title = PStr ''video'', download_url = w\<rparr>
            \<and> fst (download_endpoint ydl req) = Success (PStr ''video'') w)"
proof -
  from assms
  have b: "fst (extract_body ydl (PStr (url req)) (PStr (lower (mode req)))) = read_info (PDict d)"
    by (simp add: extract_body_called)
  show ?thesis
    by (auto simp: b extract_download_link_wraps download_endpoint_cases read_info_def dict_get_def
        split: option.splits)
qed

text \<open>A missing URL, an empty URL, and a URL without a title.\<close>
theorem missing_url_fails_default_title_witness:
  "download_endpoint (\<lambda>opts u. Inr (PDict [(''title'', PStr ''Clip'')]))
       \<lparr>url = ''https://youtu.be/dQw4w9WgXcQ'', mode = ''audio''\<rparr> =
     (HTTPException 500 (Text ''Could not extract download URL''),
      [(\<lparr>quiet = True, noplaylist = True, format = ''bestaudio/best'',
          extract_flat = False, skip_download = True\<rparr>,
        ''https://www.youtube.com/watch?v=dQw4w9WgXcQ'')])
   \<and> fst (download_endpoint (\<lambda>opts u. Inr (PDict [(''title'', PStr ''Clip''), (''url'', PStr [])]))
       \<lparr>url = ''https://youtu.be/dQw4w9WgXcQ'', mode = ''audio''\<rparr>) =
     HTTPException 500 (Text ''Could not extract download URL'')
   \<and> fst (download_endpoint (\<lambda>opts u. Inr (PDict [(''url'', PStr ''https://cdn.example/a'')]))
       \<lparr>url = ''https://youtu.be/dQw4w9WgXcQ'', mode = ''audio''\<rparr>) =
     Success (PStr ''video'') (PStr ''https://cdn.example/a'')"
proof -
  let ?req = "\<lparr>url = ''https://youtu.be/dQw4w9WgXcQ'', mode = ''audio''\<rparr>"
  let ?v = "\<lparr>url_type = Video, url_id = ''dQw4w9WgXcQ'',
           clean_url = ''https://www.youtube.com/watch?v=dQw4w9WgXcQ''\<rparr>"
  let ?o = "\<lparr>quiet = True, noplaylist = True, format = ''bestaudio/best'',
          extract_flat = False, skip_download = True\<rparr>"
  have 1: "validate_youtube_url (PStr (url ?req)) = Inr ?v"
    by (simp add: validate_youtube_url_def strip_def isspace_def host_re_def id11_re_def
        idchar_def video_patterns_def)
  have 2: "options_for_mode (PStr (lower (mode ?req))) = Inr ?o"
    by (simp add: options_for_mode_def lower_def lower_char_def)
  have a3: "(\<lambda>opts u. Inr (PDict [(''title'', PStr ''Clip'')])) ?o (clean_url ?v) =
      (Inr (PDict [(''title'', PStr ''Clip'')]) :: exn + pyval)" by simp
  have a4: "select_entry (PDict [(''title'', PStr ''Clip'')]) = Inr (PDict [(''title'', PStr ''Clip'')])"
    by (simp add: select_entry_def has_entries_def)
  have b3: "(\<lambda>opts u. Inr (PDict [(''title'', PStr ''Clip''), (''url'', PStr [])])) ?o (clean_url ?v) =
      (Inr (PDict [(''title'', PStr ''Clip''), (''url'', PStr [])]) :: exn + pyval)" by simp
  have b4: "select_entry (PDict [(''title'', PStr ''Clip''), (''url'', PStr [])]) =
      Inr (PDict [(''title'', PStr ''Clip''), (''url'', PStr [])])"
    by (simp add: select_entry_def has_entries_def)
  have c3: "(\<lambda>opts u. Inr (PDict [(''url'', PStr ''https://cdn.example/a'')])) ?o (clean_url ?v) =
      (Inr (PDict [(''url'', PStr ''https://cdn.example/a'')]) :: exn + pyval)" by simp
  have c4: "select_entry (PDict [(''url'', PStr ''https://cdn.example/a'')]) =
      Inr (PDict [(''url'', PStr ''https://cdn.example/a'')])"
    by (simp add: select_entry_def has_entries_def)
  have s: "snd (download_endpoint (\<lambda>opts u. Inr (PDict [(''title'', PStr ''Clip'')])) ?req) =
      [(?o, ''https://www.youtube.com/watch?v=dQw4w9WgXcQ'')]"
    using extract_body_called [OF 1 2 a3] by (simp add: download_endpoint_cases)
  from missing_url_fails_default_title [OF 1 2 a3 a4]
  have a: "fst (download_endpoint (\<lambda>opts u. Inr (PDict [(''title'', PStr ''Clip'')])) ?req) =
      HTTPException 500 (Text ''Could not extract download URL'')" by simp
  from missing_url_fails_default_title [OF 1 2 b3 b4]
  have b: "fst (download_endpoint (\<lambda>opts u. Inr (PDict [(''title'', PStr ''Clip''), (''url'', PStr [])])) ?req) =
      HTTPException 500 (Text ''Could not extract download URL'')" by simp
  from missing_url_fails_default_title [OF 1 2 c3 c4]
  have c: "fst (download_endpoint (\<lambda>opts u. Inr (PDict [(''url'', PStr ''https://cdn.example/a'')])) ?req) =
      Success (PStr ''video'') (PStr ''https://cdn.example/a'')" by simp
  from a s have "download_endpoint (\<lambda>opts u. Inr (PDict [(''title'', PStr ''Clip'')])) ?req =
     (HTTPException 500 (Text ''Could not extract download URL''),
      [(?o, ''https://www.youtube.com/watch?v=dQw4w9WgXcQ'')])"
    by (simp add: prod_eq_iff)
  with b c show ?thesis by (intro conjI)
qed

end
